theory Spec2Isabelle
  imports Complex_Main
begin

section \<open>The signal analyzer of \<^verbatim>\<open>signal_analyzer.py\<close>\<close>

text \<open>
  The analyzer is embedded over the real numbers: every Python float is a \<open>real\<close>, so
  rounding, infinities and NaN are outside the model (where the source relies on one of
  them, the definition says so). Counts are natural numbers. The mutable dictionary
  \<^verbatim>\<open>self.tracks\<close> is an association list in insertion order with explicit state passing.
\<close>

subsection \<open>Configuration (\<^verbatim>\<open>__init__\<close>)\<close>

record config =
  FS :: real
  BLOCK :: nat
  BAND_MIN :: real
  BAND_MAX :: real
  PEAK_THRESH :: real
  MAX_TRACKS :: nat
  TIMEOUT_BLOCKS :: nat
  SMOOTH :: nat
  HIST_LEN :: nat

definition default_config :: config where
  "default_config =
     \<lparr>FS = 48000, BLOCK = 4096, BAND_MIN = 500, BAND_MAX = 18000, PEAK_THRESH = 6,
      MAX_TRACKS = 10, TIMEOUT_BLOCKS = 20, SMOOTH = 8, HIST_LEN = 50\<rparr>"

text \<open>\<^verbatim>\<open>TOL_HZ = FS / BLOCK\<close>. The constructor raises \<^verbatim>\<open>ZeroDivisionError\<close> when \<open>BLOCK\<close> or \<open>FS\<close>
  is 0, so an analyzer exists only for a configuration with both non-zero.\<close>

definition TOL_HZ :: "config \<Rightarrow> real" where
  "TOL_HZ c = FS c / real (BLOCK c)"

text \<open>\<^verbatim>\<open>np.fft.rfftfreq(BLOCK, d=1/FS)\<close>: the centre frequency of bin \<open>k\<close> is \<open>k * FS / BLOCK\<close>,
  for \<open>k = 0 .. BLOCK div 2\<close>.\<close>

definition bins_f :: "config \<Rightarrow> real list" where
  "bins_f c = map (\<lambda>k. real k * FS c / real (BLOCK c)) [0..<BLOCK c div 2 + 1]"

definition band_bins :: "config \<Rightarrow> nat list" where
  "band_bins c =
     filter (\<lambda>k. BAND_MIN c \<le> bins_f c ! k \<and> bins_f c ! k \<le> BAND_MAX c) [0..<length (bins_f c)]"

subsection \<open>Tracks and the track dictionary\<close>

record track =
  f0 :: real
  prev_phase :: "real option"
  finst_hist :: "real list"
  mag_hist :: "real list"
  history :: "real list"
  miss_count :: nat
  seen :: bool

type_synonym bank = "(real \<times> track) list"

text \<open>\<^verbatim>\<open>deque(maxlen=m).append(v)\<close>: the oldest entries fall out on the left.\<close>

definition deque_append :: "nat \<Rightarrow> 'a list \<Rightarrow> 'a \<Rightarrow> 'a list" where
  "deque_append m xs v = (let ys = xs @ [v] in drop (length ys - m) ys)"

text \<open>\<^verbatim>\<open>d[k] = v\<close>: an existing key keeps its position, a new key goes to the end.\<close>

fun dict_set :: "real \<Rightarrow> track \<Rightarrow> bank \<Rightarrow> bank" where
  "dict_set k v [] = [(k, v)]"
| "dict_set k v ((k', v') # rest) =
     (if k' = k then (k', v) # rest else (k', v') # dict_set k v rest)"

text \<open>\<^verbatim>\<open>d.pop(k)\<close>, the dictionary afterwards.\<close>

fun dict_pop :: "real \<Rightarrow> bank \<Rightarrow> bank" where
  "dict_pop k [] = []"
| "dict_pop k ((k', v') # rest) = (if k' = k then rest else (k', v') # dict_pop k rest)"

subsection \<open>\<^verbatim>\<open>_principal_angle\<close>\<close>

text \<open>Python's \<^verbatim>\<open>%\<close> on floats takes the sign of the divisor: \<open>a % b = a - b * floor (a / b)\<close>.\<close>

definition py_mod :: "real \<Rightarrow> real \<Rightarrow> real" where
  "py_mod a b = a - b * of_int \<lfloor>a / b\<rfloor>"

definition principal_angle :: "real \<Rightarrow> real" where
  "principal_angle a = py_mod (a + pi) (2 * pi) - pi"

subsection \<open>\<^verbatim>\<open>_match_track\<close> and \<^verbatim>\<open>_ensure_track\<close>\<close>

text \<open>The scan over the keys; \<open>None\<close> is the initial \<^verbatim>\<open>(None, inf)\<close>, which every error beats.\<close>

fun nearest :: "real \<Rightarrow> real list \<Rightarrow> (real \<times> real) option \<Rightarrow> (real \<times> real) option" where
  "nearest freq [] best = best"
| "nearest freq (k # ks) best =
     (let err = \<bar>k - freq\<bar> in
        nearest freq ks
          (if (case best of None \<Rightarrow> True | Some (best_f, best_err) \<Rightarrow> err < best_err)
           then Some (k, err) else best))"

definition match_track :: "config \<Rightarrow> bank \<Rightarrow> real \<Rightarrow> real option" where
  "match_track c tracks freq =
     (if tracks = [] then None
      else (case nearest freq (map fst tracks) None of
              None \<Rightarrow> None
            | Some (best_f, best_err) \<Rightarrow> if best_err \<le> TOL_HZ c then Some best_f else None))"

definition new_track :: "real \<Rightarrow> track" where
  "new_track freq =
     \<lparr>f0 = freq, prev_phase = None, finst_hist = [], mag_hist = [], history = [],
      miss_count = 0, seen = False\<rparr>"

definition ensure_track :: "config \<Rightarrow> bank \<Rightarrow> real \<Rightarrow> real option \<times> bank" where
  "ensure_track c tracks freq =
     (if map_of tracks freq \<noteq> None then (Some freq, tracks)
      else if MAX_TRACKS c \<le> length tracks then (None, tracks)
      else (Some freq, tracks @ [(freq, new_track freq)]))"

subsection \<open>\<^verbatim>\<open>_handle_timeouts\<close>\<close>

text \<open>The first loop, on one track: the track afterwards. The flag \<open>hist_update\<close> is the
  source's \<^verbatim>\<open>seen_update\<close>.\<close>

definition sweep_track :: "config \<Rightarrow> bool \<Rightarrow> track \<Rightarrow> track" where
  "sweep_track c hist_update st =
     (if \<not> seen st then
        (let st1 = st\<lparr>miss_count := miss_count st + 1\<rparr> in
           if hist_update then st1\<lparr>history := deque_append (HIST_LEN c) (history st1) 0\<rparr>
           else st1)
      else st\<lparr>miss_count := 0\<rparr>)"

text \<open>The keys the first loop collects in \<^verbatim>\<open>remove_keys\<close>, read off the swept tracks
  (the sweep leaves \<open>seen\<close> as it was).\<close>

definition timed_out :: "config \<Rightarrow> track \<Rightarrow> bool" where
  "timed_out c st \<longleftrightarrow> \<not> seen st \<and> TIMEOUT_BLOCKS c \<le> miss_count st"

definition handle_timeouts :: "config \<Rightarrow> bool \<Rightarrow> bank \<Rightarrow> bank" where
  "handle_timeouts c hist_update tracks =
     (let swept = map (\<lambda>(k, st). (k, sweep_track c hist_update st)) tracks;
          remove_keys = map fst (filter (\<lambda>p. timed_out c (snd p)) swept)
      in fold dict_pop remove_keys swept)"

subsection \<open>The phase estimate of \<^verbatim>\<open>_process_block\<close> (lines 108 to 111)\<close>

text \<open>\<^verbatim>\<open>lo = exp(-1j * 2 * pi * fq * (n / FS))\<close> for \<open>n = n0 .. n0 + N - 1\<close>; \<open>cis t\<close> is \<open>exp (\<i> * t)\<close>.\<close>

definition local_osc :: "config \<Rightarrow> real \<Rightarrow> nat \<Rightarrow> nat \<Rightarrow> complex list" where
  "local_osc c fq n0 N = map (\<lambda>k. cis (- (2 * pi * fq * (real (k + n0) / FS c)))) [0..<N]"

text \<open>\<^verbatim>\<open>np.vdot(lo, x)\<close> conjugates its first argument.\<close>

definition vdot :: "complex list \<Rightarrow> real list \<Rightarrow> complex" where
  "vdot lo x = sum_list (map2 (\<lambda>l v. cnj l * complex_of_real v) lo x)"

text \<open>\<^verbatim>\<open>np.angle\<close> is \<open>Arg\<close>: the argument in \<open>(-pi, pi]\<close>, and \<open>0\<close> at \<open>0\<close>.\<close>

definition block_phase :: "config \<Rightarrow> real \<Rightarrow> nat \<Rightarrow> real list \<Rightarrow> real" where
  "block_phase c fq n0 x = Arg (vdot (local_osc c fq n0 (length x)) x)"

subsection \<open>The peak loop of \<^verbatim>\<open>_process_block\<close> (lines 99 to 120)\<close>

text \<open>Lines 100 and 101: the key the peak resolves to, and the dictionary after a spawn.\<close>

definition resolve :: "config \<Rightarrow> bank \<Rightarrow> real \<Rightarrow> real option \<times> bank" where
  "resolve c tracks f =
     (case match_track c tracks f of
        Some m \<Rightarrow> (Some m, tracks)
      | None \<Rightarrow> ensure_track c tracks f)"

text \<open>Lines 105 to 119 on the track object \<open>st\<close>.\<close>

definition update_track :: "config \<Rightarrow> real list \<Rightarrow> nat \<Rightarrow> real \<Rightarrow> track \<Rightarrow> track" where
  "update_track c x n0 f st =
     (let st1 = st\<lparr>f0 := 0.9 * f0 st + 0.1 * f\<rparr>;
          phase = block_phase c (f0 st1) n0 x;
          dphi = (case prev_phase st1 of None \<Rightarrow> 0 | Some p \<Rightarrow> principal_angle (phase - p));
          dt = real (length x) / FS c;
          f_dev = (dphi / (2 * pi)) / dt
      in st1\<lparr>prev_phase := Some phase,
              finst_hist := deque_append (SMOOTH c) (finst_hist st1) (f0 st1 + f_dev),
              seen := True\<rparr>)"

text \<open>
  One peak. When \<open>match = f\<close> the source mutates the object that stays in the dictionary
  under \<open>match\<close>, so that entry changes too; otherwise the entry is popped. The lookup
  cannot fail (lemma \<open>resolve_key\<close>); the branch is there to keep the function total.
\<close>

definition process_peak :: "config \<Rightarrow> real list \<Rightarrow> nat \<Rightarrow> bank \<Rightarrow> real \<Rightarrow> bank" where
  "process_peak c x n0 tracks f =
     (case resolve c tracks f of
        (None, tracks1) \<Rightarrow> tracks1
      | (Some match, tracks1) \<Rightarrow>
          (case map_of tracks1 match of
             None \<Rightarrow> tracks1
           | Some st \<Rightarrow>
               (let st2 = update_track c x n0 f st;
                    key = f0 st2;
                    tracks2 = (if match \<noteq> f then dict_pop match tracks1
                               else dict_set match st2 tracks1)
                in dict_set key st2 tracks2)))"

subsection \<open>The trend correlation of \<^verbatim>\<open>_process_block\<close> (lines 125 to 136)\<close>

definition mean :: "real list \<Rightarrow> real" where
  "mean xs = sum_list xs / real (length xs)"

definition centred :: "real list \<Rightarrow> real list" where
  "centred xs = map (\<lambda>v. v - mean xs) xs"

definition sumsq :: "real list \<Rightarrow> real" where
  "sumsq xs = sum_list (map (\<lambda>v. v * v) xs)"

definition dot :: "real list \<Rightarrow> real list \<Rightarrow> real" where
  "dot xs ys = sum_list (map2 (\<lambda>a b. a * b) xs ys)"

definition track_rho :: "track \<Rightarrow> real option" where
  "track_rho st =
     (let x_hist = finst_hist st in
      if 3 \<le> length x_hist then
        (let tau = map real [0..<length x_hist];
             xc = centred x_hist;
             tc = centred tau;
             denom = sqrt (sumsq xc * sumsq tc)
         in if denom > 1 / 10 ^ 9 then Some (dot xc tc / denom) else None)
      else None)"

definition rho_vals :: "bank \<Rightarrow> real list" where
  "rho_vals tracks = List.map_filter track_rho (map snd tracks)"

subsection \<open>\<^verbatim>\<open>_process_block\<close>\<close>

text \<open>
  The silence guard of line 84. On an empty block \<^verbatim>\<open>np.mean\<close> is NaN and the guard does not
  fire; the driver never passes an empty block.
\<close>

definition silent :: "real list \<Rightarrow> bool" where
  "silent x \<longleftrightarrow> x \<noteq> [] \<and> mean (map (\<lambda>v. v * v) x) < 1 / 10 ^ 10"

text \<open>Line 97.\<close>

definition clear_seen :: "bank \<Rightarrow> bank" where
  "clear_seen tracks = map (\<lambda>(k, st). (k, st\<lparr>seen := False\<rparr>)) tracks"

text \<open>
  Lines 97 to 136, for the peak frequencies found in the block. The spectrum and the peak
  picking (lines 86 to 95) enter as the function \<open>detect\<close>; \<open>peak_freqs\<close> below is the
  source's.
\<close>

definition process_block_with ::
  "(real list \<Rightarrow> real list) \<Rightarrow> config \<Rightarrow> bank \<Rightarrow> real list \<Rightarrow> nat \<Rightarrow> real list \<times> bank" where
  "process_block_with detect c tracks x n0 =
     (if silent x then ([], tracks)
      else
        (let peaks = detect x;
             tracks1 = clear_seen tracks;
             tracks2 = fold (\<lambda>f t. process_peak c x n0 t f) peaks tracks1;
             tracks3 = handle_timeouts c True tracks2
         in (rho_vals tracks3, tracks3)))"

text \<open>\<^verbatim>\<open>np.hanning(M)\<close>.\<close>

definition hanning :: "nat \<Rightarrow> real list" where
  "hanning M =
     (if M = 1 then [1]
      else map (\<lambda>n. 0.5 - 0.5 * cos (2 * pi * real n / real (M - 1))) [0..<M])"

text \<open>\<^verbatim>\<open>np.fft.rfft\<close>: the bins \<open>0 .. N div 2\<close> of the discrete Fourier transform.\<close>

definition rfft :: "real list \<Rightarrow> complex list" where
  "rfft x =
     (let N = length x in
      map (\<lambda>k. \<Sum>n<N. complex_of_real (x ! n) * cis (- (2 * pi * real k * real n / real N)))
        [0..<N div 2 + 1])"

text \<open>\<^verbatim>\<open>np.median\<close> of a non-empty list. On the empty list numpy gives NaN; that happens
  for an empty band only, which has no bin to be a peak.\<close>

definition median :: "real list \<Rightarrow> real" where
  "median xs =
     (let s = sort xs; n = length s in
      if odd n then s ! (n div 2) else (s ! (n div 2 - 1) + s ! (n div 2)) / 2)"

text \<open>Lines 86 to 95, for a block of \<open>BLOCK\<close> samples (what the driver passes).\<close>

definition peak_freqs :: "config \<Rightarrow> real list \<Rightarrow> real list" where
  "peak_freqs c x =
     (let win = hanning (length x);
          mag = map cmod (rfft (map2 (\<lambda>a b. a * b) x win));
          mag_band = map (\<lambda>k. mag ! k) (band_bins c);
          noise_floor = median mag_band + 1 / 10 ^ 12;
          peak_bins = filter (\<lambda>k. mag ! k / noise_floor > PEAK_THRESH c) (band_bins c)
      in map (\<lambda>k. bins_f c ! k) peak_bins)"

definition process_block :: "config \<Rightarrow> bank \<Rightarrow> real list \<Rightarrow> nat \<Rightarrow> real list \<times> bank" where
  "process_block c = process_block_with (peak_freqs c) c"

subsection \<open>\<^verbatim>\<open>process_file\<close>\<close>

text \<open>
  The loop header and the bookkeeping of \<open>n0\<close> (lines 150 to 153 and 157): the calls
  \<^verbatim>\<open>_process_block(block, n0)\<close> the loop makes, each with its offset \<open>i\<close>.
  \<^verbatim>\<open>range(0, len(audio) - BLOCK, BLOCK // 2)\<close> yields \<open>i\<close> while \<open>i < len(audio) - BLOCK\<close>.
\<close>

function driver_calls :: "nat \<Rightarrow> real list \<Rightarrow> nat \<Rightarrow> nat \<Rightarrow> (nat \<times> real list \<times> nat) list" where
  "driver_calls B audio i n0 =
     (if 0 < B div 2 \<and> i + B < length audio then
        (let block = take B (drop i audio)
         in (i, block, n0) # driver_calls B audio (i + B div 2) (n0 + length block))
      else [])"
  by pat_completeness auto
termination
  by (relation "measure (\<lambda>(B, audio, i, n0). length audio - i)") auto

datatype py_error = ValueError

text \<open>What \<^verbatim>\<open>sf.read\<close> gives: a failure, or the sample rate with mono samples or with
  frames of several channels.\<close>

datatype wav = ReadFailure | Mono real "real list" | Frames real "real list list"

datatype outcome = NoRow | Row real

text \<open>The loop body, lines 154 to 156.\<close>

definition file_step ::
  "(real list \<Rightarrow> real list) \<Rightarrow> config \<Rightarrow> (nat \<times> real list \<times> nat) \<Rightarrow> real list \<times> bank
     \<Rightarrow> real list \<times> bank" where
  "file_step detect c call acc =
     (case call of (i, block, n0) \<Rightarrow>
        (case acc of (all_rho_values, tracks) \<Rightarrow>
           (case process_block_with detect c tracks block n0 of
              (rho_vals_block, tracks') \<Rightarrow>
                (if rho_vals_block \<noteq> [] then all_rho_values @ [mean rho_vals_block]
                 else all_rho_values, tracks'))))"

definition rho_mean_abs :: "real list \<Rightarrow> real" where
  "rho_mean_abs all_rho_values =
     (if all_rho_values = [] then 0 else mean (map abs all_rho_values))"

text \<open>
  The analysis of one buffer from line 148 on, starting from the dictionary the analyzer
  holds: line 148 replaces it by the empty one. \<^verbatim>\<open>range\<close> raises \<^verbatim>\<open>ValueError\<close> on a zero
  step, after the reset.
\<close>

definition reset_tracks :: "bank \<Rightarrow> bank" where
  "reset_tracks tracks = []"

definition analyse ::
  "(real list \<Rightarrow> real list) \<Rightarrow> config \<Rightarrow> bank \<Rightarrow> real list \<Rightarrow> py_error + (real \<times> bank)" where
  "analyse detect c tracks audio =
     (let tracks0 = reset_tracks tracks in
      if BLOCK c div 2 = 0 then Inl ValueError
      else
        (case fold (file_step detect c) (driver_calls (BLOCK c) audio 0 0) ([], tracks0) of
           (all_rho_values, tracks') \<Rightarrow> Inr (rho_mean_abs all_rho_values, tracks')))"

text \<open>
  \<^verbatim>\<open>process_file\<close>: the value written to the result row and the dictionary afterwards. A read
  failure or a sample rate other than \<open>FS\<close> returns before the reset and writes no row.
\<close>

definition process_file_with ::
  "(real list \<Rightarrow> real list) \<Rightarrow> config \<Rightarrow> bank \<Rightarrow> wav \<Rightarrow> py_error + (outcome \<times> bank)" where
  "process_file_with detect c tracks w =
     (case w of
        ReadFailure \<Rightarrow> Inr (NoRow, tracks)
      | Mono fs audio \<Rightarrow>
          (if fs \<noteq> FS c then Inr (NoRow, tracks)
           else map_sum id (\<lambda>(r, t). (Row r, t)) (analyse detect c tracks audio))
      | Frames fs frames \<Rightarrow>
          (if fs \<noteq> FS c then Inr (NoRow, tracks)
           else map_sum id (\<lambda>(r, t). (Row r, t)) (analyse detect c tracks (map mean frames))))"

definition process_file :: "config \<Rightarrow> bank \<Rightarrow> wav \<Rightarrow> py_error + (outcome \<times> bank)" where
  "process_file c = process_file_with (peak_freqs c) c"

subsection \<open>The states of the track dictionary\<close>

text \<open>The keys are distinct (it is a dictionary) and every track is stored under its own
  \<open>f0\<close>.\<close>

definition bank_ok :: "bank \<Rightarrow> bool" where
  "bank_ok tracks \<longleftrightarrow> distinct (map fst tracks) \<and> list_all (\<lambda>(k, st). f0 st = k) tracks"


subsection \<open>Runs of blocks and missed tracks\<close>





text \<open>What lines 97 and 73 to 75 do to a track that is not seen and stays.\<close>

definition missed_track :: "config \<Rightarrow> track \<Rightarrow> track" where
  "missed_track c st =
     st\<lparr>seen := False, miss_count := miss_count st + 1,
        history := deque_append (HIST_LEN c) (history st) 0\<rparr>"

subsection \<open>The trend correlation in the words of the specification\<close>

text \<open>
  Section 4.4 of the specification: the Pearson coefficient between the history values
  \<open>x\<^sub>i\<close> and their indices \<open>\<tau>\<^sub>i = i\<close>, its numerator and its denominator, for a track with
  at least three values and a denominator above the small epsilon.
\<close>

definition pearson_num :: "real list \<Rightarrow> real" where
  "pearson_num xs =
     (let n = length xs;
          xbar = (\<Sum>i = 0..<n. xs ! i) / real n;
          tbar = (\<Sum>i = 0..<n. real i) / real n
      in \<Sum>i = 0..<n. (xs ! i - xbar) * (real i - tbar))"

definition pearson_den :: "real list \<Rightarrow> real" where
  "pearson_den xs =
     (let n = length xs;
          xbar = (\<Sum>i = 0..<n. xs ! i) / real n;
          tbar = (\<Sum>i = 0..<n. real i) / real n
      in sqrt ((\<Sum>i = 0..<n. (xs ! i - xbar)\<^sup>2) * (\<Sum>i = 0..<n. (real i - tbar)\<^sup>2)))"

definition pearson :: "real list \<Rightarrow> real" where
  "pearson xs = pearson_num xs / pearson_den xs"

definition qualifies :: "real list \<Rightarrow> bool" where
  "qualifies xs \<longleftrightarrow> 3 \<le> length xs \<and> pearson_den xs > 1 / 10 ^ 9"

text \<open>The lists of coefficients of the blocks of a file, one per call, in order.\<close>

fun block_rhos ::
  "(real list \<Rightarrow> real list) \<Rightarrow> config \<Rightarrow> bank \<Rightarrow> (nat \<times> real list \<times> nat) list \<Rightarrow> real list list" where
  "block_rhos detect c t [] = []"
| "block_rhos detect c t ((i, x, n0) # calls) =
     fst (process_block_with detect c t x n0)
       # block_rhos detect c (snd (process_block_with detect c t x n0)) calls"

text \<open>Per file: the mean of the absolute block values, the block value being the mean of
  the coefficients of a block with at least one; 0 when no block has one.\<close>

definition file_result :: "real list list \<Rightarrow> real" where
  "file_result rhos =
     (let vals = map mean (filter (\<lambda>l. l \<noteq> []) rhos)
      in if vals = [] then 0 else sum_list (map abs vals) / real (length vals))"

subsection \<open>Concrete inputs\<close>

text \<open>A small configuration: blocks of two samples at 8 Hz, so that \<open>TOL_HZ\<close> is 4;
  one track at most, and a timeout of two blocks.\<close>

definition tiny_config :: config where
  "tiny_config =
     \<lparr>FS = 8, BLOCK = 2, BAND_MIN = 0, BAND_MAX = 4, PEAK_THRESH = 6,
      MAX_TRACKS = 1, TIMEOUT_BLOCKS = 2, SMOOTH = 8, HIST_LEN = 50\<rparr>"

text \<open>A detector that reports one peak at 4 Hz in the block \<open>[0, 1]\<close> and none elsewhere; the
  track and the dictionary after the first block \<open>[0, 1]\<close> of a file.\<close>

definition tiny_detect :: "real list \<Rightarrow> real list" where
  "tiny_detect x = (if x = [0, 1] then [4] else [])"

definition tiny_track :: track where
  "tiny_track =
     \<lparr>f0 = 4, prev_phase = Some (block_phase tiny_config 4 0 [0, 1]), finst_hist = [4],
      mag_hist = [], history = [], miss_count = 0, seen = True\<rparr>"

definition tiny_bank :: bank where
  "tiny_bank = snd (process_block_with tiny_detect tiny_config [] [0, 1] 0)"

section \<open>Properties\<close>

subsection \<open>The dictionary operations\<close>




lemma map_of_dict_set: "map_of (dict_set k v t) = (map_of t)(k \<mapsto> v)"
  by (induction t) (auto simp: fun_eq_iff)



lemma dict_pop_filter: "distinct (map fst t) \<Longrightarrow> dict_pop k t = filter (\<lambda>p. fst p \<noteq> k) t"
proof (induction t)
  case Nil
  then show ?case by simp
next
  case (Cons p t)
  obtain k' v' where p: "p = (k', v')" by (cases p)
  show ?case
  proof (cases "k' = k")
    case True
    with Cons.prems p have "k \<notin> fst ` set t" by auto
    then have "filter (\<lambda>p. fst p \<noteq> k) t = t"
      by (auto simp: filter_id_conv)
    with True p show ?thesis by simp
  next
    case False
    with Cons p show ?thesis by simp
  qed
qed




lemma dict_pop_distinct: "distinct (map fst t) \<Longrightarrow> distinct (map fst (dict_pop k t))"
  by (simp add: dict_pop_filter distinct_map_filter)


lemma dict_pop_keys: "distinct (map fst t) \<Longrightarrow> fst ` set (dict_pop k t) = fst ` set t - {k}"
  by (auto simp: dict_pop_filter)

subsection \<open>The invariant of the dictionary\<close>




subsection \<open>Matching\<close>





subsection \<open>One peak\<close>

lemma f0_update_track [simp]: "f0 (update_track c x n0 f st) = 0.9 * f0 st + 0.1 * f"
  by (simp add: update_track_def Let_def)






lemma blend_same: "0.9 * m + 0.1 * m = (m::real)"
  by simp




subsection \<open>The timeout sweep\<close>

lemma fold_dict_pop:
  "distinct (map fst t) \<Longrightarrow> fold dict_pop ks t = filter (\<lambda>p. fst p \<notin> set ks) t"
proof (induction ks arbitrary: t)
  case Nil
  then show ?case by simp
next
  case (Cons k ks)
  from Cons.prems have d: "distinct (map fst (dict_pop k t))" by (rule dict_pop_distinct)
  from Cons.IH [OF d] Cons.prems show ?case
    by (simp add: dict_pop_filter)
qed

lemma swept_keys: "map fst (map (\<lambda>(k, st). (k, g st)) t) = map fst t"
  by (induction t) auto

lemma pop_selected:
  assumes "distinct (map fst s)"
  shows "fold dict_pop (map fst (filter P s)) s = filter (\<lambda>p. \<not> P p) s"
proof -
  from assms have inj: "inj_on fst (set s)" by (simp only: distinct_map)
  have "filter (\<lambda>p. fst p \<notin> set (map fst (filter P s))) s = filter (\<lambda>p. \<not> P p) s"
  proof (rule filter_cong [OF refl])
    fix p assume p: "p \<in> set s"
    have "fst p \<in> set (map fst (filter P s)) \<longleftrightarrow> P p"
    proof
      assume "fst p \<in> set (map fst (filter P s))"
      then obtain q where q: "q \<in> set s" "P q" "fst q = fst p" by auto
      from inj_onD [OF inj q(3) q(1) p] q(2) show "P p" by simp
    next
      assume "P p"
      with p show "fst p \<in> set (map fst (filter P s))" by auto
    qed
    then show "(fst p \<notin> set (map fst (filter P s))) = (\<not> P p)" by simp
  qed
  with fold_dict_pop [OF assms, of "map fst (filter P s)"] show ?thesis by simp
qed

lemma handle_timeouts_filter:
  assumes "distinct (map fst t)"
  shows "handle_timeouts c u t =
           filter (\<lambda>p. \<not> timed_out c (snd p)) (map (\<lambda>(k, st). (k, sweep_track c u st)) t)"
proof -
  define swept where "swept = map (\<lambda>(k, st). (k, sweep_track c u st)) t"
  from assms have d: "distinct (map fst swept)" by (simp only: swept_def swept_keys)
  from pop_selected [OF d, of "\<lambda>p. timed_out c (snd p)"] show ?thesis
    by (simp add: handle_timeouts_def Let_def swept_def [symmetric])
qed

lemma f0_sweep_track [simp]: "f0 (sweep_track c u st) = f0 st"
  by (simp add: sweep_track_def Let_def)



lemma clear_seen_ok: "bank_ok t \<Longrightarrow> bank_ok (clear_seen t)"
  by (auto simp: bank_ok_def clear_seen_def swept_keys list_all_iff simp del: map_map)

lemma clear_seen_length [simp]: "length (clear_seen t) = length t"
  by (simp add: clear_seen_def)

subsection \<open>The states the dictionary passes through\<close>








text \<open>The first peak of a file, at 4 Hz, spawns the only track the small configuration
  allows; a second peak at 12 Hz is out of tolerance and is dropped.\<close>

lemma tiny_first_peak: "process_peak tiny_config [0, 1] 0 [] 4 = [(4, tiny_track)]"
  by (simp add: process_peak_def resolve_def match_track_def ensure_track_def tiny_config_def
      new_track_def update_track_def Let_def deque_append_def tiny_track_def)


subsection \<open>Tracks that no peak matches\<close>


lemma blend_eq_iff: "0.9 * m + 0.1 * f = (m::real) \<longleftrightarrow> f = m"
  by auto




lemma map_of_swept: "map_of (map (\<lambda>(k, st). (k, g st)) t) k = map_option g (map_of t k)"
  by (induction t) auto

lemma map_of_filter_distinct:
  "distinct (map fst t) \<Longrightarrow>
   map_of (filter P t) k = (case map_of t k of None \<Rightarrow> None | Some v \<Rightarrow> if P (k, v) then Some v else None)"
proof (induction t)
  case Nil
  then show ?case by simp
next
  case (Cons p t)
  obtain k' v' where p: "p = (k', v')" by (cases p)
  from Cons.prems p have notin: "map_of t k' = None" by (simp add: map_of_eq_None_iff)
  from Cons.prems have IH: "map_of (filter P t) k =
      (case map_of t k of None \<Rightarrow> None | Some v \<Rightarrow> if P (k, v) then Some v else None)"
    using Cons.IH by simp
  show ?case
  proof (cases "k' = k")
    case True
    with p notin IH show ?thesis by (simp split: option.splits)
  next
    case False
    with p IH show ?thesis by simp
  qed
qed

lemma map_of_handle_timeouts:
  assumes "bank_ok t"
  shows "map_of (handle_timeouts c u t) k =
           (case map_of t k of None \<Rightarrow> None
            | Some st \<Rightarrow> if timed_out c (sweep_track c u st) then None
                         else Some (sweep_track c u st))"
proof -
  from assms have d: "distinct (map fst t)" by (simp add: bank_ok_def)
  then have d': "distinct (map fst (map (\<lambda>(k, st). (k, sweep_track c u st)) t))"
    by (simp only: swept_keys)
  show ?thesis
    by (simp add: handle_timeouts_filter [OF d] map_of_filter_distinct [OF d'] map_of_swept
             split: option.splits)
qed





lemma miss_count_funpow [simp]: "miss_count ((missed_track c ^^ n) st) = miss_count st + n"
  by (induction n) (auto simp: missed_track_def)

lemma finst_hist_funpow [simp]: "finst_hist ((missed_track c ^^ n) st) = finst_hist st"
  by (induction n) (auto simp: missed_track_def)







lemma tiny_bank_eq: "tiny_bank = [(4, tiny_track)]"
  by (simp add: tiny_bank_def process_block_with_def silent_def mean_def tiny_detect_def Let_def
      clear_seen_def tiny_first_peak handle_timeouts_def sweep_track_def timed_out_def)
    (simp add: tiny_track_def)

lemma tiny_bank_ok: "bank_ok tiny_bank"
  by (simp add: tiny_bank_eq bank_ok_def tiny_track_def)

lemma not_silent_ones: "\<not> silent [1, 1]"
  by (simp add: silent_def mean_def)


lemma tiny_missed_once:
  "snd (process_block_with tiny_detect tiny_config [(4, st)] [1, 1] n0) =
     (if TIMEOUT_BLOCKS tiny_config \<le> miss_count st + 1 then []
      else [(4, missed_track tiny_config st)])"
  by (simp add: process_block_with_def not_silent_ones tiny_detect_def Let_def clear_seen_def
      handle_timeouts_def sweep_track_def timed_out_def missed_track_def)




text \<open>
  C6, as stated: the zero lands in \<open>finst_hist\<close>, the history the correlation reads. In a
  block with no peak the track at 4 Hz keeps \<open>finst_hist = [4]\<close>; the zero is in \<open>history\<close>.
\<close>

theorem C6_counterexample:
  "\<not> silent [1, 1] \<and> map_option finst_hist (map_of tiny_bank 4) = Some [4] \<and>
   map_option finst_hist (map_of (snd (process_block_with tiny_detect tiny_config tiny_bank [1, 1] 2)) 4)
     = Some [4] \<and>
   map_option history (map_of (snd (process_block_with tiny_detect tiny_config tiny_bank [1, 1] 2)) 4)
     = Some [0]"
  by (simp add: tiny_bank_eq tiny_missed_once not_silent_ones)
     (simp add: tiny_track_def tiny_config_def missed_track_def deque_append_def)

lemma track_rho_cong: "finst_hist a = finst_hist b \<Longrightarrow> track_rho a = track_rho b"
  by (simp add: track_rho_def)

text \<open>
  C6, amended: in the timeout sweep of a block that passes the silence guard, each track
  not seen in the block that stays in the dictionary has a zero appended to \<open>history\<close>
  (capacity \<open>HIST_LEN\<close>), a buffer the correlation never reads; its \<open>finst_hist\<close>, and with
  it the track's correlation, is unchanged.
\<close>

theorem C6_zero_appended_to_history:
  assumes "bank_ok tracks" and "map_of tracks k = Some st" and "\<not> seen st"
    and "miss_count st + 1 < TIMEOUT_BLOCKS c"
  shows "map_of (handle_timeouts c True tracks) k = Some (sweep_track c True st) \<and>
         history (sweep_track c True st) = deque_append (HIST_LEN c) (history st) 0 \<and>
         finst_hist (sweep_track c True st) = finst_hist st \<and>
         track_rho (sweep_track c True st) = track_rho st"
proof -
  have fh: "finst_hist (sweep_track c True st) = finst_hist st"
    by (simp add: sweep_track_def Let_def)
  from assms(3,4) have "\<not> timed_out c (sweep_track c True st)"
    by (simp add: timed_out_def sweep_track_def Let_def)
  with assms(2) have "map_of (handle_timeouts c True tracks) k = Some (sweep_track c True st)"
    by (simp add: map_of_handle_timeouts [OF assms(1)])
  moreover from assms(3) have "history (sweep_track c True st) = deque_append (HIST_LEN c) (history st) 0"
    by (simp add: sweep_track_def Let_def)
  ultimately show ?thesis using fh track_rho_cong [OF fh] by simp
qed

theorem C6_witness:
  "bank_ok (clear_seen tiny_bank) \<and>
   map_of (clear_seen tiny_bank) 4 = Some (tiny_track\<lparr>seen := False\<rparr>) \<and>
   \<not> seen (tiny_track\<lparr>seen := False\<rparr>) \<and>
   miss_count (tiny_track\<lparr>seen := False\<rparr>) + 1 < TIMEOUT_BLOCKS tiny_config \<and>
   map_of (handle_timeouts tiny_config True (clear_seen tiny_bank)) 4
     = Some (sweep_track tiny_config True (tiny_track\<lparr>seen := False\<rparr>)) \<and>
   history (sweep_track tiny_config True (tiny_track\<lparr>seen := False\<rparr>)) = [0] \<and>
   finst_hist (sweep_track tiny_config True (tiny_track\<lparr>seen := False\<rparr>)) = [4]"
proof -
  have ok: "bank_ok (clear_seen tiny_bank)" by (rule clear_seen_ok [OF tiny_bank_ok])
  have k: "map_of (clear_seen tiny_bank) 4 = Some (tiny_track\<lparr>seen := False\<rparr>)"
    by (simp add: tiny_bank_eq clear_seen_def)
  have s: "\<not> seen (tiny_track\<lparr>seen := False\<rparr>)" by simp
  have m: "miss_count (tiny_track\<lparr>seen := False\<rparr>) + 1 < TIMEOUT_BLOCKS tiny_config"
    by (simp add: tiny_track_def tiny_config_def)
  from C6_zero_appended_to_history [OF ok k s m] ok k s m show ?thesis
    by (simp add: tiny_track_def tiny_config_def deque_append_def)
qed

subsection \<open>The frequency of the local oscillator\<close>

lemma Arg_cis_range: "- pi < a \<Longrightarrow> a \<le> pi \<Longrightarrow> Arg (cis a) = a"
  by (rule cis_Arg_unique) simp_all

lemma tiny_block_phase:
  assumes "- 4 < fq" and "fq \<le> 4"
  shows "block_phase tiny_config fq 0 [0, 1] = pi * fq / 4"
proof -
  have v: "vdot (local_osc tiny_config fq 0 (Suc (Suc 0))) [0, 1] = cis (pi * fq / 4)"
    by (simp add: vdot_def local_osc_def tiny_config_def cis_cnj [symmetric] del: cis_cnj)
  have lo: "- pi < pi * fq / 4"
  proof -
    from assms(1) have "pi * (- 4) < pi * fq" by (simp only: mult_less_cancel_left_pos pi_gt_zero)
    then show ?thesis by simp
  qed
  have hi: "pi * fq / 4 \<le> pi"
  proof -
    from assms(2) have "pi * fq \<le> pi * 4" by (simp only: mult_le_cancel_left_pos pi_gt_zero)
    then show ?thesis by simp
  qed
  have "block_phase tiny_config fq 0 [0, 1] = Arg (cis (pi * fq / 4))"
    by (simp add: block_phase_def v)
  also have "\<dots> = pi * fq / 4" using lo hi by (rule Arg_cis_range)
  finally show ?thesis .
qed

lemma tiny_match: "match_track tiny_config [(4, st)] 0 = Some 4"
  by (simp add: match_track_def TOL_HZ_def tiny_config_def)

lemma tiny_second_peak:
  "process_peak tiny_config [0, 1] 0 tiny_bank 0 = [(18 / 5, update_track tiny_config [0, 1] 0 0 tiny_track)]"
  by (simp add: tiny_bank_eq process_peak_def resolve_def tiny_match Let_def)
     (simp add: tiny_track_def)

text \<open>
  C1, as stated: the oscillator runs at the centre frequency the track held before the
  blend. The track at 4 Hz is matched by a peak at 0 Hz (within \<open>TOL_HZ = 4\<close>) and moves to
  3.6 Hz. The phase stored for the block is \<open>9 pi / 10\<close>, the phase against an oscillator
  at 3.6 Hz; an oscillator at the pre-update 4 Hz gives \<open>pi\<close>.
\<close>

theorem C1_counterexample:
  "match_track tiny_config tiny_bank 0 = Some 4 \<and>
   map_option f0 (map_of tiny_bank 4) = Some 4 \<and>
   map_option prev_phase (map_of (process_peak tiny_config [0, 1] 0 tiny_bank 0) (18 / 5))
     = Some (Some (9 * pi / 10)) \<and>
   Arg (vdot (local_osc tiny_config 4 0 2) [0, 1]) = pi \<and> 9 * pi / 10 \<noteq> pi"
proof -
  have a: "block_phase tiny_config (18 / 5) 0 [0, 1] = 9 * pi / 10"
    using tiny_block_phase [of "18 / 5"] by simp
  have b: "block_phase tiny_config 4 0 [0, 1] = pi"
    using tiny_block_phase [of 4] by simp
  have c: "prev_phase (update_track tiny_config [0, 1] 0 0 tiny_track) = Some (9 * pi / 10)"
    by (simp add: update_track_def Let_def tiny_track_def a)
  from b have d: "Arg (vdot (local_osc tiny_config 4 0 2) [0, 1]) = pi"
    by (simp add: block_phase_def numeral_2_eq_2)
  show ?thesis
    by (simp add: tiny_second_peak c d) (simp add: tiny_bank_eq tiny_match tiny_track_def)
qed

text \<open>
  C1, amended: for every track matched to a peak \<open>f\<close> in a block, the oscillator is built
  with the centre frequency after the blend, \<open>0.9 * old + 0.1 * f\<close>, the key the track is
  stored under afterwards; this is the pre-update value only when \<open>f\<close> equals it.
\<close>

theorem C1_oscillator_frequency:
  assumes "resolve c tracks f = (Some m, tracks1)" and "map_of tracks1 m = Some st"
  shows "map_of (process_peak c x n0 tracks f) (0.9 * f0 st + 0.1 * f)
           = Some (update_track c x n0 f st) \<and>
         f0 (update_track c x n0 f st) = 0.9 * f0 st + 0.1 * f \<and>
         prev_phase (update_track c x n0 f st)
           = Some (Arg (vdot (local_osc c (0.9 * f0 st + 0.1 * f) n0 (length x)) x)) \<and>
         (0.9 * f0 st + 0.1 * f = f0 st \<longleftrightarrow> f = f0 st)"
proof -
  have "map_of (process_peak c x n0 tracks f) (f0 (update_track c x n0 f st))
          = Some (update_track c x n0 f st)"
    using assms by (simp add: process_peak_def Let_def map_of_dict_set)
  moreover have "prev_phase (update_track c x n0 f st)
      = Some (Arg (vdot (local_osc c (0.9 * f0 st + 0.1 * f) n0 (length x)) x))"
    by (simp add: update_track_def Let_def block_phase_def)
  ultimately show ?thesis by auto
qed

theorem C1_witness:
  "resolve tiny_config tiny_bank 0 = (Some 4, tiny_bank) \<and> map_of tiny_bank 4 = Some tiny_track \<and>
   map_of (process_peak tiny_config [0, 1] 0 tiny_bank 0) (18 / 5)
     = Some (update_track tiny_config [0, 1] 0 0 tiny_track) \<and>
   prev_phase (update_track tiny_config [0, 1] 0 0 tiny_track)
     = Some (Arg (vdot (local_osc tiny_config (18 / 5) 0 2) [0, 1]))"
proof -
  have r: "resolve tiny_config tiny_bank 0 = (Some 4, tiny_bank)"
    by (simp add: resolve_def tiny_bank_eq tiny_match)
  have k: "map_of tiny_bank 4 = Some tiny_track" by (simp add: tiny_bank_eq)
  have f: "0.9 * f0 tiny_track + 0.1 * 0 = 18 / 5" by (simp add: tiny_track_def)
  from C1_oscillator_frequency [OF r k, of "[0, 1]" 0] r k f show ?thesis
    by (simp add: numeral_2_eq_2)
qed

subsection \<open>The driver loop\<close>

declare driver_calls.simps [simp del]

lemma driver_calls_length_iff:
  "k < length (driver_calls B audio i n0) \<longleftrightarrow>
     0 < B div 2 \<and> i + k * (B div 2) + B < length audio"
proof (induction B audio i n0 arbitrary: k rule: driver_calls.induct)
  case (1 B audio i n0)
  show ?case
  proof (cases "0 < B div 2 \<and> i + B < length audio")
    case True
    show ?thesis
    proof (cases k)
      case 0
      with True show ?thesis by (simp add: driver_calls.simps [of B audio i n0])
    next
      case (Suc j)
      with True "1.IH" [of "take B (drop i audio)" j] show ?thesis
        by (simp add: driver_calls.simps [of B audio i n0] Let_def add.assoc add.left_commute)
    qed
  next
    case False
    then show ?thesis
      by (auto simp add: driver_calls.simps [of B audio i n0])
  qed
qed

lemma driver_calls_nth:
  "k < length (driver_calls B audio i n0) \<Longrightarrow>
   driver_calls B audio i n0 ! k =
     (i + k * (B div 2), take B (drop (i + k * (B div 2)) audio), n0 + k * B)"
proof (induction B audio i n0 arbitrary: k rule: driver_calls.induct)
  case (1 B audio i n0)
  show ?case
  proof (cases "0 < B div 2 \<and> i + B < length audio")
    case True
    then have len: "min (length audio - i) B = B" by auto
    show ?thesis
    proof (cases k)
      case 0
      with True show ?thesis by (simp add: driver_calls.simps [of B audio i n0])
    next
      case (Suc j)
      with True len "1.prems" have "j < length (driver_calls B audio (i + B div 2) (n0 + B))"
        by (simp add: driver_calls.simps [of B audio i n0] Let_def)
      with True len "1.IH" [of "take B (drop i audio)" j] Suc show ?thesis
        by (simp add: driver_calls.simps [of B audio i n0] Let_def add.assoc add.left_commute)
    qed
  next
    case False
    with "1.prems" show ?thesis
      by (simp add: driver_calls.simps [of B audio i n0])
  qed
qed

text \<open>
  C2, at a buffer of nine samples with \<open>BLOCK = 4\<close>: the blocks start at the offsets 0, 2
  and 4, and the indices passed with them are 0, 4 and 8. The claim asks for the
  offsets; the counter \<open>n0\<close> advances by the block length while the window advances by
  half of it (lemma \<open>driver_calls_nth\<close>: call \<open>k\<close> starts at \<open>k * (BLOCK div 2)\<close> and is
  passed \<open>k * BLOCK\<close>).
\<close>

theorem C2_index_passed_to_blocks:
  "driver_calls 4 [0, 1, 2, 3, 4, 5, 6, 7, 8] 0 0 =
     [(0, [0, 1, 2, 3], 0), (2, [2, 3, 4, 5], 4), (4, [4, 5, 6, 7], 8)]"
  by (simp add: driver_calls.simps)

text \<open>
  C3: window \<open>k\<close> is processed exactly when \<open>k * (BLOCK div 2) + BLOCK < L\<close>, a strict
  bound. A buffer of exactly \<open>BLOCK\<close> samples holds one full window, which the claim
  says is processed; the loop makes no call, and the file's result is 0.
\<close>

theorem C3_windows_processed:
  "(k < length (driver_calls B audio 0 0) \<longleftrightarrow> 0 < B div 2 \<and> k * (B div 2) + B < length audio) \<and>
   driver_calls 4 [1, 2, 3, 4] 0 0 = [] \<and>
   analyse detect (tiny_config\<lparr>BLOCK := 4\<rparr>) tracks [1, 2, 3, 4] = Inr (0, [])"
  using driver_calls_length_iff [of k B audio 0 0]
  by (simp add: analyse_def reset_tracks_def tiny_config_def driver_calls.simps rho_mean_abs_def)

subsection \<open>Phase wrapping\<close>





subsection \<open>The trend correlation\<close>

lemma sum_list_map_nth: "sum_list (map g xs) = (\<Sum>i = 0..<length xs. g (xs ! i))"
  by (auto simp: sum_list_sum_nth intro!: sum.cong)

lemma mean_nth: "mean xs = (\<Sum>i = 0..<length xs. xs ! i) / real (length xs)"
  by (simp add: mean_def sum_list_sum_nth)

lemma sumsq_centred: "sumsq (centred xs) = (\<Sum>i = 0..<length xs. (xs ! i - mean xs)\<^sup>2)"
  by (simp add: sumsq_def centred_def sum_list_map_nth comp_def power2_eq_square)

lemma dot_nth:
  "length xs = length ys \<Longrightarrow> dot xs ys = (\<Sum>i = 0..<length xs. xs ! i * ys ! i)"
  by (auto simp: dot_def sum_list_sum_nth intro!: sum.cong)

lemma tau_nth: "i < n \<Longrightarrow> map real [0..<n] ! i = real i"
  by simp

lemma tau_mean: "mean (map real [0..<n]) = (\<Sum>i = 0..<n. real i) / real n"
proof -
  have "(\<Sum>i = 0..<n. map real [0..<n] ! i) = (\<Sum>i = 0..<n. real i)"
    by (rule sum.cong) auto
  then show ?thesis by (simp add: mean_nth)
qed

lemma tau_sumsq:
  "sumsq (centred (map real [0..<n])) = (\<Sum>i = 0..<n. (real i - mean (map real [0..<n]))\<^sup>2)"
proof -
  have "(\<Sum>i = 0..<n. (map real [0..<n] ! i - mean (map real [0..<n]))\<^sup>2)
          = (\<Sum>i = 0..<n. (real i - mean (map real [0..<n]))\<^sup>2)"
    by (rule sum.cong) auto
  then show ?thesis by (simp add: sumsq_centred)
qed

lemma dot_centred:
  "dot (centred xs) (centred (map real [0..<length xs]))
     = (\<Sum>i = 0..<length xs. (xs ! i - mean xs) * (real i - mean (map real [0..<length xs])))"
proof -
  have "(\<Sum>i = 0..<length xs. centred xs ! i * centred (map real [0..<length xs]) ! i)
      = (\<Sum>i = 0..<length xs. (xs ! i - mean xs) * (real i - mean (map real [0..<length xs])))"
    by (rule sum.cong) (auto simp: centred_def)
  moreover have "length (centred xs) = length (centred (map real [0..<length xs]))"
    by (simp add: centred_def)
  ultimately show ?thesis by (simp add: dot_nth centred_def)
qed

lemma track_rho_eq:
  "track_rho st =
     (if qualifies (finst_hist st) then Some (pearson (finst_hist st)) else None)"
  by (simp add: track_rho_def qualifies_def pearson_def pearson_num_def pearson_den_def Let_def
      sumsq_centred tau_sumsq dot_centred tau_mean mean_nth)


lemma rho_vals_eq:
  "rho_vals tracks = map pearson (filter qualifies (map (\<lambda>p. finst_hist (snd p)) tracks))"
  by (induction tracks) (simp_all add: rho_vals_def map_filter_simps track_rho_eq)

lemma constant_not_qualifies: "\<not> qualifies (replicate n a)"
proof -
  have "(\<Sum>i = 0..<n. replicate n a ! i) = (\<Sum>i = 0..<n. a)"
    by (rule sum.cong) auto
  then have xbar: "n \<noteq> 0 \<Longrightarrow> (\<Sum>i = 0..<n. replicate n a ! i) / real n = a" by simp
  have "(\<Sum>i = 0..<n. (replicate n a ! i - (\<Sum>i = 0..<n. replicate n a ! i) / real n)\<^sup>2)
          = (\<Sum>i = 0..<n. 0)"
  proof (rule sum.cong [OF refl])
    fix i assume "i \<in> {0..<n}"
    then have "i < n" and "n \<noteq> 0" by auto
    with xbar show "(replicate n a ! i - (\<Sum>i = 0..<n. replicate n a ! i) / real n)\<^sup>2 = 0"
      by simp
  qed
  then have "pearson_den (replicate n a) = 0"
    by (simp add: pearson_den_def Let_def)
  then show ?thesis by (simp add: qualifies_def)
qed

lemma block_rho_eq:
  "fst (process_block_with detect c t x n0) =
     (if silent x then [] else rho_vals (snd (process_block_with detect c t x n0)))"
  by (simp add: process_block_with_def Let_def)

lemma file_loop_values:
  "fst (fold (file_step detect c) calls (acc, t)) =
     acc @ map mean (filter (\<lambda>l. l \<noteq> []) (block_rhos detect c t calls))"
proof (induction calls arbitrary: acc t)
  case Nil
  then show ?case by simp
next
  case (Cons call calls)
  obtain i x n0 where call: "call = (i, x, n0)" by (cases call)
  obtain rv t' where pb: "process_block_with detect c t x n0 = (rv, t')"
    by (cases "process_block_with detect c t x n0")
  have step: "file_step detect c call (acc, t) = (if rv \<noteq> [] then acc @ [mean rv] else acc, t')"
    by (simp add: call pb file_step_def)
  show ?case
    by (simp add: step Cons.IH) (simp add: call pb)
qed

lemma rho_mean_abs_eq:
  "rho_mean_abs (map mean (filter (\<lambda>l. l \<noteq> []) rhos)) = file_result rhos"
  by (simp add: rho_mean_abs_def file_result_def Let_def mean_def)

lemma analyse_eq:
  "map_sum id fst (analyse detect c t audio) =
     (if BLOCK c div 2 = 0 then Inl ValueError
      else Inr (file_result (block_rhos detect c [] (driver_calls (BLOCK c) audio 0 0))))"
proof -
  let ?calls = "driver_calls (BLOCK c) audio 0 0"
  obtain vs t' where f: "fold (file_step detect c) ?calls ([], []) = (vs, t')"
    by (cases "fold (file_step detect c) ?calls ([], [])")
  from file_loop_values [of detect c ?calls "[]" "[]"] f
  have "vs = map mean (filter (\<lambda>l. l \<noteq> []) (block_rhos detect c [] ?calls))" by simp
  with f show ?thesis
    by (simp add: analyse_def reset_tracks_def Let_def rho_mean_abs_eq)
qed

lemma ramp_rho: "track_rho (st\<lparr>finst_hist := [100, 110, 120, 130]\<rparr>) = Some 1"
proof -
  have "sqrt 2500 = 50" by (rule real_sqrt_unique) simp_all
  then show ?thesis
    by (simp add: track_rho_def Let_def centred_def mean_def sumsq_def dot_def
        upt_rec [of 0] upt_rec [of 1] upt_rec [of 2] upt_rec [of 3])
qed

lemma flat_rho: "track_rho (st\<lparr>finst_hist := [100, 100, 100, 100]\<rparr>) = None"
  by (simp add: track_rho_def Let_def centred_def mean_def sumsq_def)

text \<open>
  C8: a track contributes the Pearson coefficient of its history against the index
  exactly when the history has at least three values and the denominator exceeds
  \<open>1e-9\<close>, so a constant history contributes nothing; the list a block returns holds the
  coefficients of the qualifying tracks (none for a silent block); the file's value is
  the mean of the absolute values of the block means, and 0 when no block has a
  coefficient. The ramp \<open>[100, 110, 120, 130]\<close> has coefficient 1.
\<close>

theorem C8_trend_correlation:
  "track_rho st = (if qualifies (finst_hist st) then Some (pearson (finst_hist st)) else None) \<and>
   rho_vals tracks = map pearson (filter qualifies (map (\<lambda>p. finst_hist (snd p)) tracks)) \<and>
   \<not> qualifies (replicate n a) \<and>
   fst (process_block_with detect c t x n0) =
     (if silent x then [] else rho_vals (snd (process_block_with detect c t x n0))) \<and>
   map_sum id fst (analyse detect c t audio) =
     (if BLOCK c div 2 = 0 then Inl ValueError
      else Inr (file_result (block_rhos detect c [] (driver_calls (BLOCK c) audio 0 0)))) \<and>
   file_result [] = 0 \<and>
   track_rho (st\<lparr>finst_hist := [100, 110, 120, 130]\<rparr>) = Some 1 \<and>
   track_rho (st\<lparr>finst_hist := [100, 100, 100, 100]\<rparr>) = None"
  using track_rho_eq [of st] rho_vals_eq [of tracks] constant_not_qualifies [of n a]
    block_rho_eq [of detect c t x n0] analyse_eq [of detect c t audio] ramp_rho [of st]
    flat_rho [of st]
  by (simp add: file_result_def)

subsection \<open>Independence of the files\<close>

text \<open>
  C9: the model is a function of the configuration and the buffer, so an analysis is
  deterministic; and the result row does not depend on the dictionary the analyzer holds
  when the file starts, whatever was analysed before (\<open>t1\<close>) and on a fresh analyzer
  (\<open>t2 = []\<close>) alike. For a file that is analysed the dictionary afterwards is the same
  too: line 148 resets it, and nothing else of the analyzer changes.
\<close>

theorem C9_analysis_independent_of_history:
  "map_sum id fst (process_file c t1 w) = map_sum id fst (process_file c t2 w) \<and>
   process_file c t1 (Mono (FS c) audio) = process_file c t2 (Mono (FS c) audio) \<and>
   process_file c t1 (Frames (FS c) frames) = process_file c t2 (Frames (FS c) frames) \<and>
   map_sum id fst (process_file_with detect c t1 w)
     = map_sum id fst (process_file_with detect c t2 w) \<and>
   analyse detect c t1 audio = analyse detect c [] audio"
  by (cases w)
     (simp_all add: process_file_def process_file_with_def analyse_def reset_tracks_def)

subsection \<open>The bound on the correlation\<close>


















end
